theory Spec2Isabelle
  imports Main "HOL-Library.Word" "HOL-Library.Char_ord"
begin

unbundle bit_operations_syntax

section \<open>Go values\<close>

text \<open>
  A Go \<^verbatim>\<open>byte\<close> is an 8-bit word, a \<^verbatim>\<open>[]byte\<close> a list of them. A Go
  \<^verbatim>\<open>string\<close> is an immutable byte sequence: it is modelled by \<open>string\<close>, whose
  characters are bytes, and \<^verbatim>\<open>[]byte(s)\<close> reads those bytes.
\<close>

type_synonym byte = "8 word"

definition bytes_of_string :: "string \<Rightarrow> byte list" where
  "bytes_of_string s = map of_char s"

text \<open>
  A Go \<^verbatim>\<open>error\<close> is an interface value that may be \<^verbatim>\<open>nil\<close>: \<open>error option\<close>.
  Its dynamic type is open. The standard types this module meets are constructors of
  their own:
  \<^item> \<open>Errno\<close>: \<^verbatim>\<open>syscall.Errno\<close>, a number;
  \<^item> \<open>PathError\<close>: \<^verbatim>\<open>*os.PathError{Op, Path, Err}\<close>, whose \<^verbatim>\<open>Unwrap\<close> returns \<^verbatim>\<open>Err\<close>;
  \<^item> \<open>wrapError\<close>: what \<^verbatim>\<open>fmt.Errorf("...%w", err)\<close> builds, one wrapped error;
  \<^item> \<open>multiError\<close>: an error with \<^verbatim>\<open>Unwrap() []error\<close> (multierr, \<^verbatim>\<open>errors.Join\<close>);
  \<^item> \<open>errorString\<close>: \<^verbatim>\<open>errors.New\<close>, a leaf that wraps nothing.

  Every other error type is a \<open>customError\<close>, given by its text and by what
  \<^verbatim>\<open>errors.Is\<close> and \<^verbatim>\<open>errors.As\<close> ask of it:
  \<^item> the \<^verbatim>\<open>syscall.Errno\<close> targets for which its own \<^verbatim>\<open>Is\<close> method answers true
    (the empty set when it has no such method);
  \<^item> the \<^verbatim>\<open>*os.PathError\<close> (its \<^verbatim>\<open>Op\<close>, \<^verbatim>\<open>Path\<close> and \<^verbatim>\<open>Err\<close>) that its own \<^verbatim>\<open>As\<close>
    method stores in a target of that type (\<open>None\<close> when it has no such method or
    answers false);
  \<^item> the errors its \<^verbatim>\<open>Unwrap\<close> returns (none, one, or several).
  The methods are taken to behave as package \<^verbatim>\<open>errors\<close> asks of them: they answer
  without panic or effect, and an \<^verbatim>\<open>As\<close> that answers true has set the target.
\<close>

datatype error =
    Errno nat
  | PathError string string "error option"
  | wrapError string "error option"
  | multiError "error list"
  | errorString string
  | customError string "nat set" "(string \<times> string \<times> error option) option" "error list"

text \<open>
  A call either returns, or ends the process with a fatal error of the runtime, which
  no caller sees and nothing recovers.
\<close>

datatype 'a outcome = Fatal error | Return 'a

section \<open>Package crypto\<close>

subsection \<open>encoding/base64\<close>

text \<open>
  The standard library's encoder, as \<^verbatim>\<open>Encoding.Encode\<close> writes it: three source bytes
  become four characters of the alphabet; one or two remaining bytes become two or three
  characters, followed by padding unless the encoding has none.
\<close>

record Encoding =
  encode :: string
  padChar :: "char option"

definition encodeURL :: string where
  "encodeURL = ''ABCDEFGHIJKLMNOPQRSTUVWXYZabcdefghijklmnopqrstuvwxyz0123456789-_''"

definition RawURLEncoding :: Encoding where
  "RawURLEncoding = \<lparr>encode = encodeURL, padChar = None\<rparr>"

definition sextet :: "Encoding \<Rightarrow> 64 word \<Rightarrow> nat \<Rightarrow> char" where
  "sextet enc val k = encode enc ! unat (drop_bit k val AND 0x3F)"

fun Encode :: "Encoding \<Rightarrow> byte list \<Rightarrow> string" where
  "Encode enc (b0 # b1 # b2 # src) =
     (let val = push_bit 16 (ucast b0) OR push_bit 8 (ucast b1) OR ucast b2
      in [sextet enc val 18, sextet enc val 12, sextet enc val 6, sextet enc val 0]
         @ Encode enc src)"
| "Encode enc [b0, b1] =
     (let val = push_bit 16 (ucast b0) OR push_bit 8 (ucast b1)
      in [sextet enc val 18, sextet enc val 12, sextet enc val 6]
         @ (case padChar enc of None \<Rightarrow> [] | Some p \<Rightarrow> [p]))"
| "Encode enc [b0] =
     (let val = push_bit 16 (ucast b0)
      in [sextet enc val 18, sextet enc val 12]
         @ (case padChar enc of None \<Rightarrow> [] | Some p \<Rightarrow> [p, p]))"
| "Encode enc [] = []"

definition EncodeToString :: "Encoding \<Rightarrow> byte list \<Rightarrow> string" where
  "EncodeToString enc src = Encode enc src"

subsection \<open>crypto/rand\<close>

text \<open>
  The secure random source (\<^verbatim>\<open>rand.Reader\<close>, by default the operating system's) is a
  parameter \<open>rd\<close> of the model: asked for \<open>n\<close> bytes in state \<open>s\<close>, it fails with an
  error or delivers them (byte \<open>i\<close> of the read is \<open>f i\<close>), and moves to its next
  state.

  \<^verbatim>\<open>rand.Read(b) (n int, err error)\<close> is modelled as the Go version of this module
  (\<^verbatim>\<open>go 1.24.3\<close> in \<^verbatim>\<open>go.mod\<close>) has it: it reads the source in full; when the source
  fails it ends the process with a fatal error that carries the source's error; when
  it returns, \<open>b\<close> is filled entirely, \<open>n\<close> is \<open>len(b)\<close> and \<open>err\<close> is \<^verbatim>\<open>nil\<close>.
\<close>

type_synonym 's Reader = "nat \<Rightarrow> 's \<Rightarrow> (error + (nat \<Rightarrow> byte)) \<times> 's"

definition rand_Read ::
  "'s Reader \<Rightarrow> byte list \<Rightarrow> 's \<Rightarrow> ((byte list \<times> int \<times> error option) \<times> 's) outcome" where
  "rand_Read rd b s =
     (case rd (length b) s of
        (Inl e, s') \<Rightarrow> Fatal e
      | (Inr f, s') \<Rightarrow> Return ((map f [0..<length b], int (length b), None), s'))"

subsection \<open>GenerateRefreshToken\<close>

definition GenerateRefreshToken ::
  "'s Reader \<Rightarrow> 's \<Rightarrow> ((string \<times> error option) \<times> 's) outcome" where
  "GenerateRefreshToken rd s =
     (let b = replicate 64 (0 :: byte) in
      case rand_Read rd b s of
        Fatal e \<Rightarrow> Fatal e
      | Return ((b', _, err), s') \<Rightarrow>
          if err \<noteq> None then Return (('''', err), s')
          else Return ((EncodeToString RawURLEncoding b', None), s'))"

subsection \<open>crypto/sha256\<close>

text \<open>
  \<^verbatim>\<open>sha256.Sum256(data) [32]byte\<close> is SHA-256 (FIPS 180-4), laid out as the
  standard library computes it: \<^verbatim>\<open>Write\<close> hands every complete 64-byte chunk to the
  block function, \<^verbatim>\<open>checkSum\<close> appends the padding (a byte 0x80, zeros up to 56
  modulo 64, the length in bits as a big-endian \<^verbatim>\<open>uint64\<close>) and writes the eight
  state words out big-endian.
\<close>

type_synonym uint32 = "32 word"
type_synonym uint64 = "64 word"
type_synonym sha256_state =
  "uint32 \<times> uint32 \<times> uint32 \<times> uint32 \<times> uint32 \<times> uint32 \<times> uint32 \<times> uint32"

definition chunk :: nat where
  "chunk = 64"

definition K256 :: "uint32 list" where
  "K256 =
    [0x428A2F98, 0x71374491, 0xB5C0FBCF, 0xE9B5DBA5, 0x3956C25B, 0x59F111F1, 0x923F82A4, 0xAB1C5ED5,
     0xD807AA98, 0x12835B01, 0x243185BE, 0x550C7DC3, 0x72BE5D74, 0x80DEB1FE, 0x9BDC06A7, 0xC19BF174,
     0xE49B69C1, 0xEFBE4786, 0x0FC19DC6, 0x240CA1CC, 0x2DE92C6F, 0x4A7484AA, 0x5CB0A9DC, 0x76F988DA,
     0x983E5152, 0xA831C66D, 0xB00327C8, 0xBF597FC7, 0xC6E00BF3, 0xD5A79147, 0x06CA6351, 0x14292967,
     0x27B70A85, 0x2E1B2138, 0x4D2C6DFC, 0x53380D13, 0x650A7354, 0x766A0ABB, 0x81C2C92E, 0x92722C85,
     0xA2BFE8A1, 0xA81A664B, 0xC24B8B70, 0xC76C51A3, 0xD192E819, 0xD6990624, 0xF40E3585, 0x106AA070,
     0x19A4C116, 0x1E376C08, 0x2748774C, 0x34B0BCB5, 0x391C0CB3, 0x4ED8AA4A, 0x5B9CCA4F, 0x682E6FF3,
     0x748F82EE, 0x78A5636F, 0x84C87814, 0x8CC70208, 0x90BEFFFA, 0xA4506CEB, 0xBEF9A3F7, 0xC67178F2]"

definition init256 :: sha256_state where
  "init256 = (0x6A09E667, 0xBB67AE85, 0x3C6EF372, 0xA54FF53A,
              0x510E527F, 0x9B05688C, 0x1F83D9AB, 0x5BE0CD19)"

text \<open>\<^verbatim>\<open>binary.BigEndian\<close>: reading and writing fixed-width integers.\<close>

definition Uint32 :: "byte list \<Rightarrow> uint32" where
  "Uint32 p = push_bit 24 (ucast (p ! 0)) OR push_bit 16 (ucast (p ! 1))
              OR push_bit 8 (ucast (p ! 2)) OR ucast (p ! 3)"

definition PutUint32 :: "uint32 \<Rightarrow> byte list" where
  "PutUint32 v = [ucast (drop_bit 24 v), ucast (drop_bit 16 v), ucast (drop_bit 8 v), ucast v]"

definition PutUint64 :: "uint64 \<Rightarrow> byte list" where
  "PutUint64 v = [ucast (drop_bit 56 v), ucast (drop_bit 48 v), ucast (drop_bit 40 v),
                  ucast (drop_bit 32 v), ucast (drop_bit 24 v), ucast (drop_bit 16 v),
                  ucast (drop_bit 8 v), ucast v]"

text \<open>
  The message schedule: \<open>w[0..15]\<close> are the chunk's sixteen big-endian words, and
  \<open>schedule k\<close> appends the next \<open>k\<close> entries, each from the four earlier ones the
  loop \<^verbatim>\<open>for i := 16; i < 64; i++\<close> reads.
\<close>

fun schedule :: "nat \<Rightarrow> uint32 list \<Rightarrow> uint32 list" where
  "schedule 0 w = w"
| "schedule (Suc k) w =
     (let i = length w;
          v1 = w ! (i - 2);
          t1 = word_rotr 17 v1 XOR word_rotr 19 v1 XOR drop_bit 10 v1;
          v2 = w ! (i - 15);
          t2 = word_rotr 7 v2 XOR word_rotr 18 v2 XOR drop_bit 3 v2
      in schedule k (w @ [t1 + w ! (i - 7) + t2 + w ! (i - 16)]))"

text \<open>One pass of the loop \<^verbatim>\<open>for i := 0; i < 64; i++\<close> over the working variables.\<close>

fun round256 :: "uint32 list \<Rightarrow> sha256_state \<Rightarrow> nat \<Rightarrow> sha256_state" where
  "round256 w (a, b, c, d, e, f, g, h) i =
     (let t1 = h + (word_rotr 6 e XOR word_rotr 11 e XOR word_rotr 25 e)
                 + ((e AND f) XOR (NOT e AND g)) + K256 ! i + w ! i;
          t2 = (word_rotr 2 a XOR word_rotr 13 a XOR word_rotr 22 a)
                 + ((a AND b) XOR (a AND c) XOR (b AND c))
      in (t1 + t2, a, b, c, d + t1, e, f, g))"

fun add_state :: "sha256_state \<Rightarrow> sha256_state \<Rightarrow> sha256_state" where
  "add_state (h0, h1, h2, h3, h4, h5, h6, h7) (a, b, c, d, e, f, g, h) =
     (h0 + a, h1 + b, h2 + c, h3 + d, h4 + e, h5 + f, h6 + g, h7 + h)"

definition block_chunk :: "sha256_state \<Rightarrow> byte list \<Rightarrow> sha256_state" where
  "block_chunk hs p =
     (let w = schedule 48 (map (\<lambda>i. Uint32 (drop (i * 4) p)) [0..<16])
      in add_state hs (foldl (round256 w) hs [0..<64]))"

text \<open>\<^verbatim>\<open>blockGeneric\<close>: the loop \<^verbatim>\<open>for len(p) >= chunk\<close>.\<close>

function blockGeneric :: "sha256_state \<Rightarrow> byte list \<Rightarrow> sha256_state" where
  "blockGeneric hs p =
     (if length p \<ge> chunk then blockGeneric (block_chunk hs (take chunk p)) (drop chunk p)
      else hs)"
  by pat_completeness auto
termination
  by (relation "measure (\<lambda>(hs, p). length p)") (auto simp: chunk_def)

declare blockGeneric.simps [simp del]

definition padding :: "nat \<Rightarrow> byte list" where
  "padding len =
     (let t = (if len mod 64 < 56 then 56 - len mod 64 else 64 + 56 - len mod 64)
      in (0x80 # replicate (t - 1) 0) @ PutUint64 (push_bit 3 (word_of_nat len)))"

fun digest_bytes :: "sha256_state \<Rightarrow> byte list" where
  "digest_bytes (h0, h1, h2, h3, h4, h5, h6, h7) =
     PutUint32 h0 @ PutUint32 h1 @ PutUint32 h2 @ PutUint32 h3
     @ PutUint32 h4 @ PutUint32 h5 @ PutUint32 h6 @ PutUint32 h7"

definition Sum256 :: "byte list \<Rightarrow> byte list" where
  "Sum256 data = digest_bytes (blockGeneric init256 (data @ padding (length data)))"

subsection \<open>encoding/hex\<close>

definition hextable :: string where
  "hextable = ''0123456789abcdef''"

definition hex_EncodeToString :: "byte list \<Rightarrow> string" where
  "hex_EncodeToString src =
     concat (map (\<lambda>v. [hextable ! unat (drop_bit 4 v), hextable ! unat (v AND 0x0f)]) src)"

subsection \<open>HashToken\<close>

definition HashToken :: "string \<Rightarrow> string" where
  "HashToken token = (let h = Sum256 (bytes_of_string token) in hex_EncodeToString h)"

section \<open>Package jwt\<close>

text \<open>
  \<^verbatim>\<open>github.com/golang-jwt/jwt/v5\<close> is an external module. Its signing methods are the
  values it registers; what its JSON encoder and each method's \<^verbatim>\<open>Sign\<close> compute is a
  parameter \<open>lib\<close> of the model. \<^verbatim>\<open>NewWithClaims\<close> and \<^verbatim>\<open>SignedString\<close> are
  modelled as the module writes them.
\<close>

datatype SigningMethod =
    SigningMethodHS256 | SigningMethodHS384 | SigningMethodHS512
  | SigningMethodRS256 | SigningMethodRS384 | SigningMethodRS512
  | SigningMethodPS256 | SigningMethodPS384 | SigningMethodPS512
  | SigningMethodES256 | SigningMethodES384 | SigningMethodES512
  | SigningMethodEdDSA | SigningMethodNone

fun Alg :: "SigningMethod \<Rightarrow> string" where
  "Alg SigningMethodHS256 = ''HS256''"
| "Alg SigningMethodHS384 = ''HS384''"
| "Alg SigningMethodHS512 = ''HS512''"
| "Alg SigningMethodRS256 = ''RS256''"
| "Alg SigningMethodRS384 = ''RS384''"
| "Alg SigningMethodRS512 = ''RS512''"
| "Alg SigningMethodPS256 = ''PS256''"
| "Alg SigningMethodPS384 = ''PS384''"
| "Alg SigningMethodPS512 = ''PS512''"
| "Alg SigningMethodES256 = ''ES256''"
| "Alg SigningMethodES384 = ''ES384''"
| "Alg SigningMethodES512 = ''ES512''"
| "Alg SigningMethodEdDSA = ''EdDSA''"
| "Alg SigningMethodNone = ''none''"

record 'c Token =
  Header :: "string \<rightharpoonup> string"
  Claims :: 'c
  Method :: SigningMethod

record 'c jwt_module =
  Marshal_Header :: "(string \<rightharpoonup> string) \<Rightarrow> error + byte list"
  Marshal_Claims :: "'c \<Rightarrow> error + byte list"
  Sign :: "SigningMethod \<Rightarrow> string \<Rightarrow> byte list \<Rightarrow> error + byte list"

definition NewWithClaims :: "SigningMethod \<Rightarrow> 'c \<Rightarrow> 'c Token" where
  "NewWithClaims method claims =
     \<lparr>Header = [''typ'' \<mapsto> ''JWT'', ''alg'' \<mapsto> Alg method], Claims = claims, Method = method\<rparr>"

definition EncodeSegment :: "byte list \<Rightarrow> string" where
  "EncodeSegment seg = EncodeToString RawURLEncoding seg"

definition SigningString :: "'c jwt_module \<Rightarrow> 'c Token \<Rightarrow> error + string" where
  "SigningString lib t =
     (case Marshal_Header lib (Header t) of
        Inl err \<Rightarrow> Inl err
      | Inr h \<Rightarrow>
          (case Marshal_Claims lib (Claims t) of
             Inl err \<Rightarrow> Inl err
           | Inr c \<Rightarrow> Inr (EncodeSegment h @ ''.'' @ EncodeSegment c)))"

definition SignedString :: "'c jwt_module \<Rightarrow> 'c Token \<Rightarrow> byte list \<Rightarrow> string \<times> error option" where
  "SignedString lib t key =
     (case SigningString lib t of
        Inl err \<Rightarrow> ('''', Some err)
      | Inr sstr \<Rightarrow>
          (case Sign lib (Method t) sstr key of
             Inl err \<Rightarrow> ('''', Some err)
           | Inr sig \<Rightarrow> (sstr @ ''.'' @ EncodeSegment sig, None)))"

definition GenerateToken :: "'c jwt_module \<Rightarrow> byte list \<Rightarrow> 'c \<Rightarrow> string \<times> error option" where
  "GenerateToken lib secret claims =
     (let t = NewWithClaims SigningMethodHS256 claims in SignedString lib t secret)"

section \<open>Package logx1\<close>

subsection \<open>errors.Is and errors.As\<close>

text \<open>
  \<^verbatim>\<open>errors.Is(err, target)\<close> walks the tree that \<^verbatim>\<open>Unwrap\<close> spans, depth first. At
  each error it answers true when the error equals the target or when the error's own
  \<^verbatim>\<open>Is\<close> method answers true for the target; a \<^verbatim>\<open>nil\<close> from \<^verbatim>\<open>Unwrap\<close> ends the
  walk. The targets here are \<^verbatim>\<open>syscall.Errno\<close> values: they are comparable, only an
  \<open>Errno\<close> equals one, and the \<^verbatim>\<open>Is\<close> method of \<^verbatim>\<open>syscall.Errno\<close> itself answers
  false for them.
\<close>

fun "is" :: "error \<Rightarrow> error \<Rightarrow> bool" and is_list :: "error list \<Rightarrow> error \<Rightarrow> bool" where
  "is (Errno n) target = (Errno n = target)"
| "is (errorString m) target = (errorString m = target)"
| "is (PathError op path None) target = (PathError op path None = target)"
| "is (PathError op path (Some e)) target = (PathError op path (Some e) = target \<or> is e target)"
| "is (wrapError m None) target = (wrapError m None = target)"
| "is (wrapError m (Some e)) target = (wrapError m (Some e) = target \<or> is e target)"
| "is (multiError es) target = (multiError es = target \<or> is_list es target)"
| "is (customError m ks a es) target =
     (customError m ks a es = target
      \<or> (case target of Errno k \<Rightarrow> k \<in> ks | _ \<Rightarrow> False)
      \<or> is_list es target)"
| "is_list [] target = False"
| "is_list (e # es) target = (is e target \<or> is_list es target)"

definition errors_Is :: "error option \<Rightarrow> error option \<Rightarrow> bool" where
  "errors_Is err target =
     (case (err, target) of
        (Some e, Some t) \<Rightarrow> is e t
      | _ \<Rightarrow> err = target)"

text \<open>
  \<^verbatim>\<open>errors.As(err, &perr)\<close> with \<^verbatim>\<open>perr *os.PathError\<close>, on the same walk: the first
  error that is a \<^verbatim>\<open>*os.PathError\<close>, or what the first \<^verbatim>\<open>As\<close> method that answers true
  has stored.
\<close>

fun as_PathError :: "error \<Rightarrow> error option"
  and as_PathError_list :: "error list \<Rightarrow> error option" where
  "as_PathError (PathError op path u) = Some (PathError op path u)"
| "as_PathError (Errno n) = None"
| "as_PathError (errorString m) = None"
| "as_PathError (wrapError m None) = None"
| "as_PathError (wrapError m (Some e)) = as_PathError e"
| "as_PathError (multiError es) = as_PathError_list es"
| "as_PathError (customError m ks (Some (op, path, u)) es) = Some (PathError op path u)"
| "as_PathError (customError m ks None es) = as_PathError_list es"
| "as_PathError_list [] = None"
| "as_PathError_list (e # es) =
     (case as_PathError e of Some perr \<Rightarrow> Some perr | None \<Rightarrow> as_PathError_list es)"

definition errors_As_PathError :: "error option \<Rightarrow> error option" where
  "errors_As_PathError err = (case err of None \<Rightarrow> None | Some e \<Rightarrow> as_PathError e)"

subsection \<open>Sync\<close>

definition EINVAL :: error where
  "EINVAL = Errno 0x16"

definition ENOTTY :: error where
  "ENOTTY = Errno 0x19"

text \<open>
  A \<^verbatim>\<open>*zap.Logger\<close> may be \<^verbatim>\<open>nil\<close>; of a logger, only what its \<^verbatim>\<open>Sync\<close> method
  returns matters here.
\<close>

record Logger =
  Logger_Sync :: "error option"

definition Sync :: "Logger option \<Rightarrow> error option" where
  "Sync l =
     (case l of
        None \<Rightarrow> None
      | Some lg \<Rightarrow>
          (let err = Logger_Sync lg in
           if err = None then None
           else if errors_Is err (Some EINVAL) \<or> errors_Is err (Some ENOTTY) then None
           else
             (case errors_As_PathError err of
                Some perr \<Rightarrow>
                  if errors_Is (Some perr) (Some EINVAL) \<or> errors_Is (Some perr) (Some ENOTTY)
                  then None
                  else err
              | None \<Rightarrow> err)))"

section \<open>The specification's vocabulary\<close>

text \<open>
  Base64 with the URL-safe alphabet and no padding (RFC 4648, section 5): the bits of
  the input, each byte most significant bit first, are cut into groups of six, the last
  group filled up with zero bits; each group, read as a number, selects a character:
  0 to 25 the letters \<^verbatim>\<open>A-Z\<close>, 26 to 51 the letters \<^verbatim>\<open>a-z\<close>, 52 to 61 the digits,
  62 the minus sign and 63 the underscore.
\<close>

definition bits_of_byte :: "byte \<Rightarrow> bool list" where
  "bits_of_byte b = map (bit b) [7, 6, 5, 4, 3, 2, 1, 0]"

fun sextets :: "bool list \<Rightarrow> bool list list" where
  "sextets (a # b # c # d # e # f # bs) = [a, b, c, d, e, f] # sextets bs"
| "sextets [] = []"
| "sextets bs = [take 6 (bs @ replicate 5 False)]"

definition bits_value :: "bool list \<Rightarrow> nat" where
  "bits_value bs = foldl (\<lambda>n b. 2 * n + of_bool b) 0 bs"

definition url_char :: "nat \<Rightarrow> char" where
  "url_char n =
     (if n < 26 then char_of (of_char CHR ''A'' + n)
      else if n < 52 then char_of (of_char CHR ''a'' + (n - 26))
      else if n < 62 then char_of (of_char CHR ''0'' + (n - 52))
      else if n = 62 then CHR ''-'' else CHR ''_'')"

definition base64url_unpadded :: "byte list \<Rightarrow> string" where
  "base64url_unpadded src =
     map (\<lambda>g. url_char (bits_value g)) (sextets (concat (map bits_of_byte src)))"

text \<open>The pattern \<^verbatim>\<open>[A-Za-z0-9_-]\<close> of a token's characters.\<close>

definition url_safe :: "char \<Rightarrow> bool" where
  "url_safe c \<longleftrightarrow>
     (CHR ''A'' \<le> c \<and> c \<le> CHR ''Z'') \<or> (CHR ''a'' \<le> c \<and> c \<le> CHR ''z'')
     \<or> (CHR ''0'' \<le> c \<and> c \<le> CHR ''9'') \<or> c = CHR ''_'' \<or> c = CHR ''-''"

text \<open>
  Lowercase hexadecimal: a byte is written as two digits of base 16, the high one first,
  with the digits \<^verbatim>\<open>0-9a-f\<close>.
\<close>

definition lower_hex :: "char \<Rightarrow> bool" where
  "lower_hex c \<longleftrightarrow> (CHR ''0'' \<le> c \<and> c \<le> CHR ''9'') \<or> (CHR ''a'' \<le> c \<and> c \<le> CHR ''f'')"

definition hex_digit :: "nat \<Rightarrow> char" where
  "hex_digit n = ''0123456789abcdef'' ! n"

definition lowercase_hex :: "byte list \<Rightarrow> string" where
  "lowercase_hex bs =
     concat (map (\<lambda>b. [hex_digit (unat b div 16), hex_digit (unat b mod 16)]) bs)"

text \<open>
  An error is or wraps a target when the target is the error itself or is reached from it
  by unwrapping, through a \<^verbatim>\<open>*os.PathError\<close>, a wrapped error, a member of a
  multi-error or what another error's \<^verbatim>\<open>Unwrap\<close> returns.
\<close>

inductive wraps :: "error \<Rightarrow> error \<Rightarrow> bool" where
  wraps_self: "wraps e e"
| wraps_PathError: "wraps e t \<Longrightarrow> wraps (PathError op path (Some e)) t"
| wraps_wrapError: "wraps e t \<Longrightarrow> wraps (wrapError m (Some e)) t"
| wraps_multiError: "e \<in> set es \<Longrightarrow> wraps e t \<Longrightarrow> wraps (multiError es) t"
| wraps_customError: "e \<in> set es \<Longrightarrow> wraps e t \<Longrightarrow> wraps (customError m ks a es) t"

text \<open>
  An error matches a target when it is or wraps the target, or is or wraps an error
  whose own \<^verbatim>\<open>Is\<close> method answers true for the target.
\<close>

inductive matches :: "error \<Rightarrow> error \<Rightarrow> bool" where
  matches_self: "matches e e"
| matches_Is: "k \<in> ks \<Longrightarrow> matches (customError m ks a es) (Errno k)"
| matches_PathError: "matches e t \<Longrightarrow> matches (PathError op path (Some e)) t"
| matches_wrapError: "matches e t \<Longrightarrow> matches (wrapError m (Some e)) t"
| matches_multiError: "e \<in> set es \<Longrightarrow> matches e t \<Longrightarrow> matches (multiError es) t"
| matches_customError: "e \<in> set es \<Longrightarrow> matches e t \<Longrightarrow> matches (customError m ks a es) t"

text \<open>
  An error is plain when neither it nor any error it wraps has an \<^verbatim>\<open>Is\<close> method that
  answers true for an \<open>Errno\<close> or an \<^verbatim>\<open>As\<close> method that yields a \<^verbatim>\<open>*os.PathError\<close>:
  the errors built from the standard types alone are plain.
\<close>

fun plain :: "error \<Rightarrow> bool" and plain_list :: "error list \<Rightarrow> bool" where
  "plain (Errno n) = True"
| "plain (errorString m) = True"
| "plain (PathError op path None) = True"
| "plain (PathError op path (Some e)) = plain e"
| "plain (wrapError m None) = True"
| "plain (wrapError m (Some e)) = plain e"
| "plain (multiError es) = plain_list es"
| "plain (customError m ks a es) = (ks = {} \<and> a = None \<and> plain_list es)"
| "plain_list [] = True"
| "plain_list (e # es) = (plain e \<and> plain_list es)"

text \<open>
  The errors that \<open>Sync\<close> drops: those that match \<open>EINVAL\<close> or \<open>ENOTTY\<close>, and those
  in which \<^verbatim>\<open>errors.As\<close> finds a \<^verbatim>\<open>*os.PathError\<close> that does.
\<close>

definition suppressed :: "error \<Rightarrow> bool" where
  "suppressed err \<longleftrightarrow>
     matches err EINVAL \<or> matches err ENOTTY
     \<or> (case as_PathError err of
          None \<Rightarrow> False
        | Some p \<Rightarrow> matches p EINVAL \<or> matches p ENOTTY)"

subsection \<open>Concrete inputs\<close>

text \<open>A random source that delivers the byte 0xAB as often as asked and counts its reads.\<close>

definition example_Reader :: "nat Reader" where
  "example_Reader n s = (Inr (\<lambda>i. 0xAB), Suc s)"

text \<open>A random source whose read fails with \<^verbatim>\<open>EIO\<close>.\<close>

definition failing_Reader :: "nat Reader" where
  "failing_Reader n s = (Inl (Errno 5), Suc s)"

text \<open>
  A stand-in for the JWT module: claims are their own JSON text, every header encodes as
  \<^verbatim>\<open>{}\<close>, and only HS256 signs (with the key as the signature).
\<close>

definition example_module :: "string jwt_module" where
  "example_module =
     \<lparr>Marshal_Header = (\<lambda>h. Inr (bytes_of_string ''{}'')),
      Marshal_Claims = (\<lambda>c. Inr (bytes_of_string c)),
      Sign = (\<lambda>m sstr key.
        if m = SigningMethodHS256 then Inr key else Inl (errorString ''unavailable''))\<rparr>"

text \<open>
  What syncing a terminal returns, wrapped once more; and a write error that is no
  such thing.
\<close>

definition spurious_error :: error where
  "spurious_error =
     wrapError ''sync'' (Some (PathError ''sync'' ''/dev/stdout'' (Some ENOTTY)))"

definition write_error :: error where
  "write_error = PathError ''write'' ''/var/log/app'' (Some (Errno 5))"

text \<open>
  An error of a type of the caller's own, without \<^verbatim>\<open>Unwrap\<close> or \<^verbatim>\<open>As\<close>, whose
  \<^verbatim>\<open>Is\<close> method answers true for \<open>EINVAL\<close>.
\<close>

definition stale_handle :: error where
  "stale_handle = customError ''stale handle'' {0x16} None []"

section \<open>Properties of package crypto\<close>

subsection \<open>The token's alphabet and length\<close>

lemma url_safe_encodeURL: "list_all url_safe encodeURL"
  by (simp add: encodeURL_def url_safe_def less_eq_char_def)

lemma unat_and_le: "unat (x AND c) \<le> unat c"
  by (rule word_and_le1 [THEN word_le_nat_alt [THEN iffD1]])

lemma sextet_index: "unat (drop_bit k (val :: 64 word) AND 0x3F) < 64"
  using unat_and_le [of "drop_bit k val" "0x3F"] by simp

lemma sextet_mem: "length (encode enc) = 64 \<Longrightarrow> sextet enc val k \<in> set (encode enc)"
  unfolding sextet_def by (rule nth_mem) (simp add: sextet_index)

lemma set_Encode_raw:
  "length (encode enc) = 64 \<Longrightarrow> padChar enc = None \<Longrightarrow>
   set (Encode enc src) \<subseteq> set (encode enc)"
  by (induction enc src rule: Encode.induct) (simp_all add: Let_def sextet_mem)

lemma length_Encode_raw:
  "padChar enc = None \<Longrightarrow> length (Encode enc src) = (length src * 8 + 5) div 6"
  by (induction enc src rule: Encode.induct) (simp_all add: Let_def)

lemma url_safe_RawURLEncoding: "list_all url_safe (EncodeToString RawURLEncoding src)"
proof -
  have "set (Encode RawURLEncoding src) \<subseteq> set encodeURL"
    using set_Encode_raw [of RawURLEncoding src] by (simp add: RawURLEncoding_def encodeURL_def)
  with url_safe_encodeURL show ?thesis
    by (auto simp: EncodeToString_def list_all_iff)
qed

lemma length_RawURLEncoding:
  "length (EncodeToString RawURLEncoding src) = (length src * 8 + 5) div 6"
  by (simp add: EncodeToString_def length_Encode_raw RawURLEncoding_def)

subsection \<open>The encoder computes base64url\<close>

text \<open>The alphabet of \<^verbatim>\<open>RawURLEncoding\<close> is the table of RFC 4648.\<close>

lemma encodeURL_url_char: "encodeURL = map url_char [0..<64]"
  by code_simp

lemma sextet_bits:
  "unat (drop_bit k (w :: 64 word) AND 0x3F) =
     bits_value [bit w (k + 5), bit w (k + 4), bit w (k + 3), bit w (k + 2), bit w (k + 1), bit w k]"
proof -
  have m: "(0x3F :: 64 word) = mask 6" by (simp add: mask_eq_exp_minus_1)
  have "unat (drop_bit k w AND 0x3F) = take_bit 6 (unat (drop_bit k w))"
    unfolding m by (simp only: take_bit_eq_mask [symmetric] unsigned_take_bit_eq)
  also have "\<dots> = horner_sum of_bool 2 (map (bit (unat (drop_bit k w))) [0..<6])"
    by (simp only: horner_sum_bit_eq_take_bit)
  also have "[0..<6] = [0, 1, 2, 3, 4, 5 :: nat]"
    by (simp add: upt_rec)
  finally show ?thesis
    by (simp add: bits_value_def bit_unsigned_iff bit_drop_bit_eq add.commute)
qed

lemma sextet_url_char:
  "sextet RawURLEncoding w k =
     url_char (bits_value
       [bit w (k + 5), bit w (k + 4), bit w (k + 3), bit w (k + 2), bit w (k + 1), bit w k])"
proof -
  have "unat (drop_bit k w AND 0x3F) < 64"
    using unat_and_le [of "drop_bit k w" "0x3F"] by simp
  then have "encodeURL ! unat (drop_bit k w AND 0x3F) = url_char (unat (drop_bit k w AND 0x3F))"
    unfolding encodeURL_url_char by simp
  then show ?thesis
    by (simp only: sextet_def RawURLEncoding_def Encoding.simps sextet_bits)
qed

lemma replicate_False:
  "replicate 2 False = [False, False]"
  "replicate 4 False = [False, False, False, False]"
  by (simp_all add: eval_nat_numeral)

lemma bit_byte_out: "8 \<le> n \<Longrightarrow> bit (b :: byte) n = False"
  using bit_imp_le_length [of b n] by auto

lemma sextets_24:
  "sextets (bits_of_byte b0 @ bits_of_byte b1 @ bits_of_byte b2 @ bs) =
     [[bit b0 7, bit b0 6, bit b0 5, bit b0 4, bit b0 3, bit b0 2],
      [bit b0 1, bit b0 0, bit b1 7, bit b1 6, bit b1 5, bit b1 4],
      [bit b1 3, bit b1 2, bit b1 1, bit b1 0, bit b2 7, bit b2 6],
      [bit b2 5, bit b2 4, bit b2 3, bit b2 2, bit b2 1, bit b2 0]] @ sextets bs"
  by (simp add: bits_of_byte_def)

lemma sextets_16:
  "sextets (bits_of_byte b0 @ bits_of_byte b1) =
     [[bit b0 7, bit b0 6, bit b0 5, bit b0 4, bit b0 3, bit b0 2],
      [bit b0 1, bit b0 0, bit b1 7, bit b1 6, bit b1 5, bit b1 4],
      [bit b1 3, bit b1 2, bit b1 1, bit b1 0, False, False]]"
  by (simp add: bits_of_byte_def replicate_False)

lemma sextets_8:
  "sextets (bits_of_byte b0) =
     [[bit b0 7, bit b0 6, bit b0 5, bit b0 4, bit b0 3, bit b0 2],
      [bit b0 1, bit b0 0, False, False, False, False]]"
  by (simp add: bits_of_byte_def replicate_False)

lemma val3_bits:
  fixes b0 b1 b2 :: byte
  defines "val \<equiv> push_bit 16 (ucast b0) OR push_bit 8 (ucast b1) OR (ucast b2 :: 64 word)"
  shows "[bit val 23, bit val 22, bit val 21, bit val 20, bit val 19, bit val 18] =
           [bit b0 7, bit b0 6, bit b0 5, bit b0 4, bit b0 3, bit b0 2]"
    and "[bit val 17, bit val 16, bit val 15, bit val 14, bit val 13, bit val 12] =
           [bit b0 1, bit b0 0, bit b1 7, bit b1 6, bit b1 5, bit b1 4]"
    and "[bit val 11, bit val 10, bit val 9, bit val 8, bit val 7, bit val 6] =
           [bit b1 3, bit b1 2, bit b1 1, bit b1 0, bit b2 7, bit b2 6]"
    and "[bit val 5, bit val 4, bit val 3, bit val 2, bit val 1, bit val 0] =
           [bit b2 5, bit b2 4, bit b2 3, bit b2 2, bit b2 1, bit b2 0]"
  unfolding val_def by (simp_all add: bit_simps bit_byte_out)

lemma val2_bits:
  fixes b0 b1 :: byte
  defines "val \<equiv> push_bit 16 (ucast b0) OR (push_bit 8 (ucast b1) :: 64 word)"
  shows "[bit val 23, bit val 22, bit val 21, bit val 20, bit val 19, bit val 18] =
           [bit b0 7, bit b0 6, bit b0 5, bit b0 4, bit b0 3, bit b0 2]"
    and "[bit val 17, bit val 16, bit val 15, bit val 14, bit val 13, bit val 12] =
           [bit b0 1, bit b0 0, bit b1 7, bit b1 6, bit b1 5, bit b1 4]"
    and "[bit val 11, bit val 10, bit val 9, bit val 8, bit val 7, bit val 6] =
           [bit b1 3, bit b1 2, bit b1 1, bit b1 0, False, False]"
  unfolding val_def by (simp_all add: bit_simps bit_byte_out)

lemma val1_bits:
  fixes b0 :: byte
  defines "val \<equiv> (push_bit 16 (ucast b0) :: 64 word)"
  shows "[bit val 23, bit val 22, bit val 21, bit val 20, bit val 19, bit val 18] =
           [bit b0 7, bit b0 6, bit b0 5, bit b0 4, bit b0 3, bit b0 2]"
    and "[bit val 17, bit val 16, bit val 15, bit val 14, bit val 13, bit val 12] =
           [bit b0 1, bit b0 0, False, False, False, False]"
  unfolding val_def by (simp_all add: bit_simps bit_byte_out)

lemma sextet_url_char_at:
  "sextet RawURLEncoding w 18 =
     url_char (bits_value [bit w 23, bit w 22, bit w 21, bit w 20, bit w 19, bit w 18])"
  "sextet RawURLEncoding w 12 =
     url_char (bits_value [bit w 17, bit w 16, bit w 15, bit w 14, bit w 13, bit w 12])"
  "sextet RawURLEncoding w 6 =
     url_char (bits_value [bit w 11, bit w 10, bit w 9, bit w 8, bit w 7, bit w 6])"
  "sextet RawURLEncoding w 0 =
     url_char (bits_value [bit w 5, bit w 4, bit w 3, bit w 2, bit w 1, bit w 0])"
  unfolding sextet_url_char [of w 18] sextet_url_char [of w 12] sextet_url_char [of w 6]
    sextet_url_char [of w 0]
  by (simp_all add: numeral_2_eq_2)

lemma Encode_3:
  "Encode RawURLEncoding (b0 # b1 # b2 # src) =
     [url_char (bits_value [bit b0 7, bit b0 6, bit b0 5, bit b0 4, bit b0 3, bit b0 2]),
      url_char (bits_value [bit b0 1, bit b0 0, bit b1 7, bit b1 6, bit b1 5, bit b1 4]),
      url_char (bits_value [bit b1 3, bit b1 2, bit b1 1, bit b1 0, bit b2 7, bit b2 6]),
      url_char (bits_value [bit b2 5, bit b2 4, bit b2 3, bit b2 2, bit b2 1, bit b2 0])]
     @ Encode RawURLEncoding src"
  by (simp only: Encode.simps Let_def sextet_url_char_at val3_bits)

lemma Encode_2:
  "Encode RawURLEncoding [b0, b1] =
     [url_char (bits_value [bit b0 7, bit b0 6, bit b0 5, bit b0 4, bit b0 3, bit b0 2]),
      url_char (bits_value [bit b0 1, bit b0 0, bit b1 7, bit b1 6, bit b1 5, bit b1 4]),
      url_char (bits_value [bit b1 3, bit b1 2, bit b1 1, bit b1 0, False, False])]"
  by (simp only: Encode.simps Let_def sextet_url_char_at val2_bits)
     (simp add: RawURLEncoding_def)

lemma Encode_1:
  "Encode RawURLEncoding [b0] =
     [url_char (bits_value [bit b0 7, bit b0 6, bit b0 5, bit b0 4, bit b0 3, bit b0 2]),
      url_char (bits_value [bit b0 1, bit b0 0, False, False, False, False])]"
  by (simp only: Encode.simps Let_def sextet_url_char_at val1_bits)
     (simp add: RawURLEncoding_def)

lemma base64url_unpadded_3:
  "base64url_unpadded (b0 # b1 # b2 # src) =
     [url_char (bits_value [bit b0 7, bit b0 6, bit b0 5, bit b0 4, bit b0 3, bit b0 2]),
      url_char (bits_value [bit b0 1, bit b0 0, bit b1 7, bit b1 6, bit b1 5, bit b1 4]),
      url_char (bits_value [bit b1 3, bit b1 2, bit b1 1, bit b1 0, bit b2 7, bit b2 6]),
      url_char (bits_value [bit b2 5, bit b2 4, bit b2 3, bit b2 2, bit b2 1, bit b2 0])]
     @ base64url_unpadded src"
  by (simp only: base64url_unpadded_def list.map concat.simps append_assoc sextets_24
      map_append)

lemma base64url_unpadded_2:
  "base64url_unpadded [b0, b1] =
     [url_char (bits_value [bit b0 7, bit b0 6, bit b0 5, bit b0 4, bit b0 3, bit b0 2]),
      url_char (bits_value [bit b0 1, bit b0 0, bit b1 7, bit b1 6, bit b1 5, bit b1 4]),
      url_char (bits_value [bit b1 3, bit b1 2, bit b1 1, bit b1 0, False, False])]"
  by (simp only: base64url_unpadded_def list.map concat.simps append_Nil2 sextets_16)

lemma base64url_unpadded_1:
  "base64url_unpadded [b0] =
     [url_char (bits_value [bit b0 7, bit b0 6, bit b0 5, bit b0 4, bit b0 3, bit b0 2]),
      url_char (bits_value [bit b0 1, bit b0 0, False, False, False, False])]"
  by (simp only: base64url_unpadded_def list.map concat.simps append_Nil2 sextets_8)

text \<open>
  The standard library's encoder, three bytes at a time with shifts and masks, computes
  the encoding that RFC 4648 describes bit by bit.
\<close>

lemma Encode_RawURLEncoding_eq: "Encode RawURLEncoding src = base64url_unpadded src"
proof (induction RawURLEncoding src rule: Encode.induct)
  case (1 b0 b1 b2 src)
  then show ?case
    by (simp only: Encode_3 base64url_unpadded_3)
next
  case (2 b0 b1)
  show ?case
    by (simp only: Encode_2 base64url_unpadded_2)
next
  case (3 b0)
  show ?case
    by (simp only: Encode_1 base64url_unpadded_1)
next
  case 4
  show ?case by (simp add: base64url_unpadded_def)
qed

lemma EncodeToString_RawURLEncoding_eq:
  "EncodeToString RawURLEncoding src = base64url_unpadded src"
  by (simp only: EncodeToString_def Encode_RawURLEncoding_eq)

subsection \<open>GenerateRefreshToken\<close>

text \<open>
  The function in one equation, in terms of what the source does when asked for 64
  bytes.
\<close>

lemma GenerateRefreshToken_eq:
  "GenerateRefreshToken rd s =
     (case rd 64 s of
        (Inl e, s') \<Rightarrow> Fatal e
      | (Inr f, s') \<Rightarrow> Return ((EncodeToString RawURLEncoding (map f [0..<64]), None), s'))"
  by (simp add: GenerateRefreshToken_def rand_Read_def split: prod.splits sum.splits)

lemma GenerateRefreshToken_example:
  "GenerateRefreshToken example_Reader 0 =
     Return ((''q6urq6urq6urq6urq6urq6urq6urq6urq6urq6urq6urq6urq6urq6urq6urq6urq6urq6urq6urq6urq6urqw'',
       None), Suc 0)"
  by code_simp

lemma GenerateRefreshToken_failing:
  "GenerateRefreshToken failing_Reader 0 = Fatal (Errno 5)"
  by (simp add: GenerateRefreshToken_eq failing_Reader_def)

text \<open>
  C1. For every successful invocation, \<open>GenerateRefreshToken\<close> returns exactly the
  unpadded URL-safe base64 encoding of the 64 bytes it drew from the random source in
  its one read.
\<close>

theorem GenerateRefreshToken_encodes_drawn_bytes:
  assumes "GenerateRefreshToken rd s = Return ((tok, None), s')"
  shows "\<exists>f. rd 64 s = (Inr f, s')
           \<and> tok = base64url_unpadded (map f [0..<64])
           \<and> length (map f [0..<64]) = 64"
  using assms
  by (auto simp: GenerateRefreshToken_eq EncodeToString_RawURLEncoding_eq
           split: prod.splits sum.splits)

theorem GenerateRefreshToken_encodes_drawn_bytes_witness:
  "GenerateRefreshToken example_Reader 0 =
     Return ((''q6urq6urq6urq6urq6urq6urq6urq6urq6urq6urq6urq6urq6urq6urq6urq6urq6urq6urq6urq6urq6urqw'',
       None), Suc 0)
   \<and> example_Reader 64 0 = (Inr (\<lambda>i. 0xAB), Suc 0)
   \<and> ''q6urq6urq6urq6urq6urq6urq6urq6urq6urq6urq6urq6urq6urq6urq6urq6urq6urq6urq6urq6urq6urqw''
       = base64url_unpadded (map (\<lambda>i. 0xAB) [0..<64])"
proof -
  have rd: "example_Reader 64 0 = (Inr (\<lambda>i. 0xAB), Suc 0)"
    by (simp add: example_Reader_def)
  from GenerateRefreshToken_encodes_drawn_bytes [OF GenerateRefreshToken_example]
  obtain f where "example_Reader 64 0 = (Inr f, Suc 0)"
    and "''q6urq6urq6urq6urq6urq6urq6urq6urq6urq6urq6urq6urq6urq6urq6urq6urq6urq6urq6urq6urq6urqw''
         = base64url_unpadded (map f [0..<64])"
    by blast
  with rd show ?thesis
    using GenerateRefreshToken_example by simp
qed

text \<open>
  C3, as the specification states it, fails: at a source whose read fails with
  \<^verbatim>\<open>EIO\<close>, the process ends inside \<^verbatim>\<open>rand.Read\<close> with a fatal error; neither that
  error nor anything else is returned to the caller.
\<close>

theorem GenerateRefreshToken_failed_source_counterexample:
  "fst (failing_Reader 64 0) = Inl (Errno 5)
   \<and> GenerateRefreshToken failing_Reader 0 = Fatal (Errno 5)
   \<and> GenerateRefreshToken failing_Reader 0 \<noteq> Return (('''', Some (Errno 5)), Suc 0)"
  by (simp add: GenerateRefreshToken_failing failing_Reader_def)

text \<open>
  C3, amended. \<open>GenerateRefreshToken\<close> fails if and only if the random source fails to
  supply the bytes, and the failure is the end of the process with a fatal error that
  carries the source's error; no error is returned to the caller: whenever the function
  returns, its error is nil. The source is read exactly once (the state returned is
  the state after that read): no retry, no recovery, no suppression, no other failure.
\<close>

theorem GenerateRefreshToken_fails_iff:
  "(GenerateRefreshToken rd s = Fatal e) = (fst (rd 64 s) = Inl e)
   \<and> (case GenerateRefreshToken rd s of
        Fatal e' \<Rightarrow> True
      | Return ((tok, err), s') \<Rightarrow> err = None \<and> s' = snd (rd 64 s))"
  by (auto simp: GenerateRefreshToken_eq split: prod.splits sum.splits)

theorem GenerateRefreshToken_fails_iff_witness:
  "GenerateRefreshToken failing_Reader 0 = Fatal (Errno 5)
   \<and> fst (failing_Reader 64 0) = Inl (Errno 5)
   \<and> GenerateRefreshToken example_Reader 0 \<noteq> Fatal (Errno 5)
   \<and> snd (example_Reader 64 0) = Suc 0"
  using GenerateRefreshToken_fails_iff [of failing_Reader 0 "Errno 5"]
    GenerateRefreshToken_fails_iff [of example_Reader 0 "Errno 5"]
  by (simp add: failing_Reader_def example_Reader_def)

text \<open>
  C5. For every successful invocation, the token has exactly 86 characters, each from
  the unpadded URL-safe base64 alphabet: it matches \<^verbatim>\<open>[A-Za-z0-9_-]{86}\<close>.
\<close>

theorem GenerateRefreshToken_pattern:
  assumes "GenerateRefreshToken rd s = Return ((tok, None), s')"
  shows "length tok = 86 \<and> list_all url_safe tok"
proof -
  from assms obtain f where "tok = EncodeToString RawURLEncoding (map f [0..<64])"
    by (auto simp: GenerateRefreshToken_eq split: prod.splits sum.splits)
  then show ?thesis
    by (simp add: length_RawURLEncoding url_safe_RawURLEncoding)
qed

theorem GenerateRefreshToken_pattern_witness:
  "GenerateRefreshToken example_Reader 0 =
     Return ((''q6urq6urq6urq6urq6urq6urq6urq6urq6urq6urq6urq6urq6urq6urq6urq6urq6urq6urq6urq6urq6urqw'',
       None), Suc 0)
   \<and> length ''q6urq6urq6urq6urq6urq6urq6urq6urq6urq6urq6urq6urq6urq6urq6urq6urq6urq6urq6urq6urq6urqw''
       = 86
   \<and> list_all url_safe
       ''q6urq6urq6urq6urq6urq6urq6urq6urq6urq6urq6urq6urq6urq6urq6urq6urq6urq6urq6urq6urq6urqw''"
  using GenerateRefreshToken_pattern [OF GenerateRefreshToken_example]
    GenerateRefreshToken_example
  by simp



subsection \<open>Hexadecimal encoding\<close>

lemma lower_hex_hextable: "list_all lower_hex hextable"
  by (simp add: hextable_def lower_hex_def less_eq_char_def)

lemma unat_hi_nibble: "unat (drop_bit 4 (v::byte)) = unat v div 16"
  by (simp add: drop_bit_eq_div unat_div_distrib)

lemma unat_lo_nibble: "unat ((v::byte) AND 0x0f) = unat v mod 16"
proof -
  have "(0x0f :: byte) = mask 4" by (simp add: mask_eq_exp_minus_1)
  then have "v AND 0x0f = take_bit 4 v" by (simp add: take_bit_eq_mask)
  then show ?thesis by (simp add: take_bit_eq_mod unat_mod_distrib)
qed

lemma unat_byte_less: "unat (v::byte) < 256"
  using unsigned_less [of v, where 'a=nat] by simp

lemma nibbles_less: "unat b div 16 < 16" "unat b mod 16 < 16" for b :: byte
  using unat_byte_less [of b] by simp_all

text \<open>The standard library's shifts and masks compute the two base-16 digits.\<close>

lemma hex_EncodeToString_eq: "hex_EncodeToString bs = lowercase_hex bs"
  by (simp add: hex_EncodeToString_def lowercase_hex_def hex_digit_def hextable_def
      unat_hi_nibble unat_lo_nibble)

lemma length_hex: "length (hex_EncodeToString bs) = 2 * length bs"
  by (induction bs) (simp_all add: hex_EncodeToString_def)

lemma lower_hex_digit: "n < 16 \<Longrightarrow> lower_hex (hex_digit n)"
  using lower_hex_hextable by (simp add: list_all_length hextable_def hex_digit_def)

lemma lower_hex_lowercase_hex: "list_all lower_hex (lowercase_hex bs)"
  by (induction bs) (simp_all add: lowercase_hex_def lower_hex_digit nibbles_less)

lemma hex_digit_inj: "m < 16 \<Longrightarrow> n < 16 \<Longrightarrow> hex_digit m = hex_digit n \<longleftrightarrow> m = n"
  unfolding hex_digit_def by (rule nth_eq_iff_index_eq) simp_all

lemma lowercase_hex_Cons:
  "lowercase_hex (b # bs) =
     hex_digit (unat b div 16) # hex_digit (unat b mod 16) # lowercase_hex bs"
  by (simp add: lowercase_hex_def)

lemma div_mod_16_eq: "(a::nat) div 16 = b div 16 \<Longrightarrow> a mod 16 = b mod 16 \<Longrightarrow> a = b"
  by (metis div_mult_mod_eq)

text \<open>Two byte strings with the same hexadecimal text are the same.\<close>

lemma lowercase_hex_inj:
  assumes "lowercase_hex xs = lowercase_hex ys"
  shows "xs = ys"
proof -
  have "length (lowercase_hex xs) = length (lowercase_hex ys)"
    using assms by (rule arg_cong)
  then have "length xs = length ys"
    by (simp add: hex_EncodeToString_eq [symmetric] length_hex)
  then show ?thesis
    using assms
  proof (induction xs ys rule: list_induct2)
    case Nil
    show ?case by simp
  next
    case (Cons x xs y ys)
    from Cons.prems have hi: "hex_digit (unat x div 16) = hex_digit (unat y div 16)"
      and lo: "hex_digit (unat x mod 16) = hex_digit (unat y mod 16)"
      and rest: "lowercase_hex xs = lowercase_hex ys"
      unfolding lowercase_hex_Cons by simp_all
    from hi lo have "unat x div 16 = unat y div 16" "unat x mod 16 = unat y mod 16"
      by (simp_all add: hex_digit_inj nibbles_less)
    then have "unat x = unat y"
      by (rule div_mod_16_eq)
    then have "x = y"
      by (simp add: word_unat_eq_iff)
    with Cons.IH [OF rest] show ?case by simp
  qed
qed

subsection \<open>The digest\<close>

lemma length_digest_bytes: "length (digest_bytes hs) = 32"
  by (cases hs rule: digest_bytes.cases) (simp add: PutUint32_def)

lemma length_Sum256: "length (Sum256 d) = 32"
  by (simp add: Sum256_def length_digest_bytes)

lemma length_padding:
  "length (padding n) = (if n mod 64 < 56 then 56 - n mod 64 else 64 + 56 - n mod 64) + 8"
  by (auto simp add: padding_def PutUint64_def Let_def)

text \<open>
  The padded message is a whole number of chunks: the block function consumes all of it
  (the standard library panics otherwise).
\<close>

lemma length_padded: "(n + length (padding n)) mod 64 = 0"
proof -
  define r where "r = n mod 64"
  define q where "q = n div 64"
  have n: "n = 64 * q + r" and r: "r < 64"
    by (simp_all add: r_def q_def)
  have "n + ((if r < 56 then 56 - r else 64 + 56 - r) + 8)
        = 64 * (if r < 56 then q + 1 else q + 2)"
    using r by (simp add: n)
  then show ?thesis
    unfolding length_padding r_def [symmetric] by simp
qed

subsection \<open>HashToken\<close>

lemma length_HashToken: "length (HashToken s) = 64"
  by (simp add: HashToken_def length_hex length_Sum256)

lemma finite_strings_64: "finite {xs :: string. length xs = 64}"
  using finite_lists_length_eq [of "UNIV :: char set" 64] by simp

text \<open>
  C2. For every string \<open>s\<close>, \<open>HashToken s\<close> is the lowercase hexadecimal encoding of
  the 32-byte SHA-256 digest of the bytes of \<open>s\<close>, and so a string of 64 lowercase
  hexadecimal characters.
\<close>

theorem HashToken_hex_sha256:
  "HashToken s = lowercase_hex (Sum256 (bytes_of_string s))
   \<and> length (Sum256 (bytes_of_string s)) = 32
   \<and> length (HashToken s) = 64
   \<and> list_all lower_hex (HashToken s)"
  by (simp add: length_HashToken length_Sum256)
     (simp add: HashToken_def lower_hex_lowercase_hex hex_EncodeToString_eq)

text \<open>
  C4, as the specification states it, fails: its constant has 63 characters, one short
  of every value of \<open>HashToken\<close>.
\<close>

theorem HashToken_empty_counterexample:
  "HashToken '''' \<noteq> ''e3b0c44298fc1c149afbf4c8996fb92427ae41e4649b934ca495991b7852b85''"
proof
  assume "HashToken '''' = ''e3b0c44298fc1c149afbf4c8996fb92427ae41e4649b934ca495991b7852b85''"
  then have "length (HashToken '''')
             = length ''e3b0c44298fc1c149afbf4c8996fb92427ae41e4649b934ca495991b7852b85''"
    by (rule arg_cong)
  then show False by (simp add: length_HashToken)
qed

text \<open>
  C4, amended. \<open>HashToken\<close> of the empty string is the well-known SHA-256 digest of
  the empty input, 64 lowercase hexadecimal characters ending in \<^verbatim>\<open>b855\<close>.
\<close>

theorem HashToken_empty:
  "HashToken '''' = ''e3b0c44298fc1c149afbf4c8996fb92427ae41e4649b934ca495991b7852b855''"
  by code_simp

subsection \<open>Collisions\<close>

text \<open>
  What can be said of collisions without probability: there are infinitely many strings
  and finitely many fingerprints, so some two strings share one; and the hexadecimal
  encoding adds no collision to those of the digest.
\<close>

lemma HashToken_not_injective:
  "\<not> (\<forall>s1 s2. s1 \<noteq> s2 \<longrightarrow> HashToken s1 \<noteq> HashToken s2)"
proof
  assume "\<forall>s1 s2. s1 \<noteq> s2 \<longrightarrow> HashToken s1 \<noteq> HashToken s2"
  then have inj: "inj HashToken"
    unfolding inj_on_def by blast
  have "range HashToken \<subseteq> {xs. length xs = 64}"
    using length_HashToken by blast
  then have "finite (range HashToken)"
    using finite_strings_64 by (rule finite_subset)
  with inj have "finite (UNIV :: string set)"
    by (rule finite_imageD [rotated])
  then show False
    using infinite_UNIV_listI by blast
qed

lemma HashToken_eq_iff_digest_eq:
  "HashToken s1 = HashToken s2 \<longleftrightarrow> Sum256 (bytes_of_string s1) = Sum256 (bytes_of_string s2)"
  by (auto simp: HashToken_def hex_EncodeToString_eq dest: lowercase_hex_inj)

section \<open>Properties of package jwt\<close>

lemma GenerateToken_example:
  "GenerateToken example_module [1, 2, 3] ''{}'' = (''e30.e30.AQID'', None)"
  by code_simp

text \<open>
  C9. \<open>GenerateToken\<close> always signs with HS256: for every secret and every claims the
  token it signs has the method \<open>SigningMethodHS256\<close> and the header
  \<^verbatim>\<open>alg = HS256\<close>; the result is the same when every other method's \<open>Sign\<close> is
  replaced by that of HS256; and the signature, when there is one, is what
  \<open>Sign\<close> of HS256 returns for the signing string and the secret.
\<close>

theorem GenerateToken_signs_HS256:
  "GenerateToken lib secret claims =
     SignedString lib \<lparr>Header = [''typ'' \<mapsto> ''JWT'', ''alg'' \<mapsto> ''HS256''], Claims = claims,
                        Method = SigningMethodHS256\<rparr> secret
   \<and> GenerateToken lib secret claims =
       GenerateToken (lib\<lparr>Sign := \<lambda>m. Sign lib SigningMethodHS256\<rparr>) secret claims
   \<and> (case SigningString lib (NewWithClaims SigningMethodHS256 claims) of
        Inl err \<Rightarrow> GenerateToken lib secret claims = ('''', Some err)
      | Inr sstr \<Rightarrow>
          (case Sign lib SigningMethodHS256 sstr secret of
             Inl err \<Rightarrow> GenerateToken lib secret claims = ('''', Some err)
           | Inr sig \<Rightarrow>
               GenerateToken lib secret claims = (sstr @ ''.'' @ EncodeSegment sig, None)))"
  by (simp add: GenerateToken_def SignedString_def SigningString_def NewWithClaims_def
           split: sum.splits)

theorem GenerateToken_signs_HS256_witness:
  "GenerateToken example_module [1, 2, 3] ''{}'' = (''e30.e30.AQID'', None)
   \<and> GenerateToken (example_module\<lparr>Sign := \<lambda>m. Sign example_module SigningMethodHS256\<rparr>)
         [1, 2, 3] ''{}'' = (''e30.e30.AQID'', None)"
proof -
  have same: "GenerateToken example_module [1, 2, 3] ''{}'' =
      GenerateToken (example_module\<lparr>Sign := \<lambda>m. Sign example_module SigningMethodHS256\<rparr>)
        [1, 2, 3] ''{}''"
    using GenerateToken_signs_HS256 [of example_module "[1, 2, 3]" "''{}''"] by blast
  show ?thesis
    unfolding same [symmetric] by (simp add: GenerateToken_example)
qed

section \<open>Properties of package logx1\<close>

lemma is_refl: "is e e"
proof (cases e)
  case (PathError op path u)
  then show ?thesis by (cases u) simp_all
next
  case (wrapError m u)
  then show ?thesis by (cases u) simp_all
qed simp_all

lemma is_list_mem: "e \<in> set es \<Longrightarrow> is e t \<Longrightarrow> is_list es t"
  by (induction es) auto

lemma is_imp_matches:
  "is e t \<Longrightarrow> matches e t"
  "is_list es t \<Longrightarrow> \<exists>e \<in> set es. matches e t"
proof (induction e t and es t rule: is_is_list.induct)
  case (8 m ks a es target)
  then show ?case by (auto intro: matches.intros split: error.splits)
qed (auto intro: matches.intros)

lemma matches_imp_is: "matches e t \<Longrightarrow> is e t"
  by (induction rule: matches.induct) (simp_all add: is_refl is_list_mem)

text \<open>The walk of \<^verbatim>\<open>errors.Is\<close> decides exactly "matches".\<close>

lemma is_iff_matches: "is e t \<longleftrightarrow> matches e t"
  using is_imp_matches(1) matches_imp_is by blast

text \<open>So both relations can be computed.\<close>

lemma matches_code [code]: "matches e t \<longleftrightarrow> is e t"
  by (simp only: is_iff_matches)

lemma wraps_code [code]:
  "wraps e t \<longleftrightarrow>
     e = t
     \<or> (case e of
          PathError op path (Some u) \<Rightarrow> wraps u t
        | wrapError m (Some u) \<Rightarrow> wraps u t
        | multiError es \<Rightarrow> list_ex (\<lambda>u. wraps u t) es
        | customError m ks a es \<Rightarrow> list_ex (\<lambda>u. wraps u t) es
        | _ \<Rightarrow> False)"
proof
  assume "wraps e t"
  then show "e = t
     \<or> (case e of
          PathError op path (Some u) \<Rightarrow> wraps u t
        | wrapError m (Some u) \<Rightarrow> wraps u t
        | multiError es \<Rightarrow> list_ex (\<lambda>u. wraps u t) es
        | customError m ks a es \<Rightarrow> list_ex (\<lambda>u. wraps u t) es
        | _ \<Rightarrow> False)"
    by (cases rule: wraps.cases) (auto simp: list_ex_iff)
next
  assume "e = t
     \<or> (case e of
          PathError op path (Some u) \<Rightarrow> wraps u t
        | wrapError m (Some u) \<Rightarrow> wraps u t
        | multiError es \<Rightarrow> list_ex (\<lambda>u. wraps u t) es
        | customError m ks a es \<Rightarrow> list_ex (\<lambda>u. wraps u t) es
        | _ \<Rightarrow> False)"
  then show "wraps e t"
    by (cases e) (auto simp: list_ex_iff intro: wraps.intros split: option.splits)
qed

lemma wraps_imp_matches: "wraps e t \<Longrightarrow> matches e t"
  by (induction rule: wraps.induct) (auto intro: matches.intros)

text \<open>For a plain error, \<^verbatim>\<open>errors.Is\<close> decides exactly "is or wraps".\<close>

lemma plain_is_imp_wraps:
  "plain e \<Longrightarrow> is e t \<Longrightarrow> wraps e t"
  "plain_list es \<Longrightarrow> is_list es t \<Longrightarrow> \<exists>e \<in> set es. wraps e t"
proof (induction e t and es t rule: is_is_list.induct)
  case (8 m ks a es target)
  then show ?case by (auto intro: wraps.intros split: error.splits)
qed (auto intro: wraps.intros)

text \<open>
  What the \<^verbatim>\<open>*os.PathError\<close> found by \<^verbatim>\<open>errors.As\<close> in a plain error wraps, the
  error itself wraps: there the second test of \<open>Sync\<close> never succeeds where the first
  has failed.
\<close>

lemma plain_as_PathError:
  "plain e \<Longrightarrow> as_PathError e = Some p \<Longrightarrow> is p t \<Longrightarrow> is e t"
  "plain_list es \<Longrightarrow> as_PathError_list es = Some p \<Longrightarrow> is p t \<Longrightarrow> is_list es t"
  by (induction e and es rule: as_PathError_as_PathError_list.induct)
     (auto split: option.splits)

lemma plain_suppressed:
  "plain err \<Longrightarrow> suppressed err \<longleftrightarrow> wraps err EINVAL \<or> wraps err ENOTTY"
  unfolding suppressed_def is_iff_matches [symmetric]
  using plain_as_PathError(1) plain_is_imp_wraps(1) wraps_imp_matches matches_imp_is
  by (cases "as_PathError err") (simp, blast, simp, blast)

lemma Sync_eq:
  "Sync (Some lg) =
     (case Logger_Sync lg of
        None \<Rightarrow> None
      | Some err \<Rightarrow> if suppressed err then None else Some err)"
  by (auto simp: Sync_def Let_def errors_Is_def errors_As_PathError_def suppressed_def
        is_iff_matches [symmetric] split: option.splits)

lemma wraps_childless: "wraps (customError m ks a []) t \<Longrightarrow> t = customError m ks a []"
  by (erule wraps.cases) auto

text \<open>
  C10, as the specification states it, fails: for the error \<open>stale_handle\<close>, which
  neither is nor wraps \<open>EINVAL\<close> or \<open>ENOTTY\<close> but whose own \<^verbatim>\<open>Is\<close> method answers true
  for \<open>EINVAL\<close>, \<open>Sync\<close> returns nil and not the error.
\<close>

theorem Sync_own_Is_counterexample:
  "Sync (Some \<lparr>Logger_Sync = Some stale_handle\<rparr>) = None
   \<and> Sync (Some \<lparr>Logger_Sync = Some stale_handle\<rparr>) \<noteq> Some stale_handle
   \<and> \<not> wraps stale_handle EINVAL
   \<and> \<not> wraps stale_handle ENOTTY"
  using wraps_childless [of "''stale handle''" "{0x16}" None EINVAL]
    wraps_childless [of "''stale handle''" "{0x16}" None ENOTTY]
  by (auto simp: Sync_def errors_Is_def EINVAL_def ENOTTY_def stale_handle_def)

text \<open>
  C10, amended. \<open>Sync l\<close> returns nil when \<open>l\<close> is nil, when the logger's own \<open>Sync\<close>
  returns nil, or when the error it returns is suppressed: it matches \<open>EINVAL\<close> or
  \<open>ENOTTY\<close>, or \<^verbatim>\<open>errors.As\<close> finds in it a \<^verbatim>\<open>*os.PathError\<close> that does. In every
  other case it returns that error unchanged. Every error that is or wraps (also
  through a \<^verbatim>\<open>*os.PathError\<close>) \<open>EINVAL\<close> or \<open>ENOTTY\<close> is suppressed, and among plain
  errors no other is.
\<close>

theorem Sync_filters_spurious:
  "Sync l =
     (case l of
        None \<Rightarrow> None
      | Some lg \<Rightarrow>
          (case Logger_Sync lg of
             None \<Rightarrow> None
           | Some err \<Rightarrow> if suppressed err then None else Some err))
   \<and> (wraps err EINVAL \<or> wraps err ENOTTY \<longrightarrow> suppressed err)
   \<and> (plain err \<longrightarrow> suppressed err = (wraps err EINVAL \<or> wraps err ENOTTY))"
proof (intro conjI impI)
  show "Sync l =
     (case l of
        None \<Rightarrow> None
      | Some lg \<Rightarrow>
          (case Logger_Sync lg of
             None \<Rightarrow> None
           | Some err \<Rightarrow> if suppressed err then None else Some err))"
  proof (cases l)
    case None
    then show ?thesis by (simp add: Sync_def)
  next
    case (Some lg)
    then show ?thesis by (simp add: Sync_eq)
  qed
next
  assume "wraps err EINVAL \<or> wraps err ENOTTY"
  then show "suppressed err"
    unfolding suppressed_def using wraps_imp_matches by (auto split: option.splits)
next
  assume "plain err"
  then show "suppressed err = (wraps err EINVAL \<or> wraps err ENOTTY)"
    by (rule plain_suppressed)
qed

theorem Sync_filters_spurious_witness:
  "Sync (Some \<lparr>Logger_Sync = Some spurious_error\<rparr>) = None
   \<and> wraps spurious_error ENOTTY \<and> plain spurious_error \<and> suppressed spurious_error
   \<and> Sync (Some \<lparr>Logger_Sync = Some write_error\<rparr>) = Some write_error
   \<and> plain write_error \<and> \<not> suppressed write_error
   \<and> \<not> wraps write_error EINVAL \<and> \<not> wraps write_error ENOTTY"
proof -
  note t1 = Sync_filters_spurious [of "Some \<lparr>Logger_Sync = Some spurious_error\<rparr>" spurious_error]
  note t2 = Sync_filters_spurious [of "Some \<lparr>Logger_Sync = Some write_error\<rparr>" write_error]
  have p1: "plain spurious_error"
    by (simp add: spurious_error_def ENOTTY_def)
  have w1: "wraps spurious_error ENOTTY"
    unfolding spurious_error_def by (intro wraps.intros)
  have p2: "plain write_error"
    by (simp add: write_error_def)
  have n2: "\<not> suppressed write_error"
    by (simp add: suppressed_def is_iff_matches [symmetric] write_error_def EINVAL_def
        ENOTTY_def)
  from t1 w1 have s1: "suppressed spurious_error"
    by blast
  from t1 s1 have r1: "Sync (Some \<lparr>Logger_Sync = Some spurious_error\<rparr>) = None"
    by simp
  from t2 n2 have r2: "Sync (Some \<lparr>Logger_Sync = Some write_error\<rparr>) = Some write_error"
    by simp
  from t2 p2 n2 have "\<not> wraps write_error EINVAL" "\<not> wraps write_error ENOTTY"
    by blast+
  with p1 w1 s1 r1 p2 n2 r2 show ?thesis
    by blast
qed

end
